theory Spec2Isabelle
  imports Complex_Main
begin

section \<open>Annotation records\<close>

text \<open>
  An annotation is a plain JavaScript object. The fields that the components read or write
  are \<^verbatim>\<open>type\<close>, \<^verbatim>\<open>x\<close>, \<^verbatim>\<open>y\<close>, \<^verbatim>\<open>width\<close>, \<^verbatim>\<open>height\<close>, \<^verbatim>\<open>color\<close>, \<^verbatim>\<open>text\<close>, \<^verbatim>\<open>fontSize\<close>,
  \<^verbatim>\<open>imageData\<close>, \<^verbatim>\<open>id\<close>, \<^verbatim>\<open>page\<close> and \<^verbatim>\<open>layer\<close>. A field that an object does not carry reads as
  \<^verbatim>\<open>undefined\<close>; it is \<open>None\<close> here. Every field name has the prefix \<open>a_\<close>, because
  \<open>x\<close>, \<open>id\<close> and \<open>type\<close> are not usable as constant names.

  JavaScript numbers are doubles. A coordinate is the real number that the double stands
  for. Comparison, minimum and absolute value are the same on doubles and on reals; a
  subtraction of doubles rounds the exact difference, and the one place that subtracts,
  \<^verbatim>\<open>handleMouseMove\<close>, takes the rounding as an argument. \<^verbatim>\<open>Date.now()\<close> is an integer number of
  milliseconds, and a layer is an array length or a value clamped at 0 from below, hence a
  natural number.
\<close>

record annotation =
  a_type :: string
  a_x :: real
  a_y :: real
  a_width :: "real option"
  a_height :: "real option"
  a_color :: "string option"
  a_text :: "string option"
  a_fontSize :: "real option"
  a_imageData :: "string option"
  a_id :: "int option"
  a_page :: "int option"
  a_layer :: "nat option"

section \<open>PDFEditor.jsx: the editor state and its handlers\<close>

text \<open>
  \<^verbatim>\<open>layerList\<close> entries of LayerManager.jsx: \<^verbatim>\<open>{ index, annotations, visible }\<close>. The editor's
  own \<^verbatim>\<open>layers\<close> state is an array that starts empty; only its length is ever read.
\<close>

record layer_entry =
  l_index :: nat
  l_annotations :: "annotation list"
  l_visible :: bool

text \<open>The \<^verbatim>\<open>useState\<close> cells of the PDFEditor component that the handlers below touch.\<close>

record editor =
  currentPage :: int
  totalPages :: int
  annotations :: "annotation list"
  layers :: "layer_entry list"
  history :: "annotation list list"
  historyIndex :: int

definition initial :: editor where
  "initial = \<lparr>currentPage = 1, totalPages = 3, annotations = [], layers = [],
     history = [], historyIndex = - 1\<rparr>"

text \<open>
  \<^verbatim>\<open>xs.slice(0, e)\<close>: a negative end counts from the back of the array, an end beyond the
  length takes the whole array.
\<close>

definition slice0 :: "'a list \<Rightarrow> int \<Rightarrow> 'a list" where
  "slice0 xs e = (if e < 0 then take (nat (int (length xs) + e)) xs else take (nat e) xs)"

text \<open>\<^verbatim>\<open>xs[i]\<close>: \<^verbatim>\<open>undefined\<close> (here \<open>None\<close>) outside the array.\<close>

definition at_index :: "'a list \<Rightarrow> int \<Rightarrow> 'a option" where
  "at_index xs i = (if 0 \<le> i \<and> i < int (length xs) then Some (xs ! nat i) else None)"

text \<open>
  A handler is a closure of the render in which it was created: the state variables it
  reads (\<^verbatim>\<open>annotations\<close>, \<^verbatim>\<open>history\<close>, \<^verbatim>\<open>historyIndex\<close>, \<^verbatim>\<open>currentPage\<close>, \<^verbatim>\<open>layers\<close>) are those
  of that render, while a setter acts on the state as it is when the handler runs: a
  setter given a value overwrites it, a setter given a function (\<^verbatim>\<open>prev => ...\<close>) is applied
  to it. A handler that reads state therefore takes two editor states, the \<open>render\<close> it
  belongs to and the \<open>live\<close> state. They are the same state when the handler runs in the
  event that the render itself dispatches (a click, a pointer-up); they differ when it is
  called later, from a callback. Only \<^verbatim>\<open>handleAddAnnotation\<close>, and \<^verbatim>\<open>addToHistory\<close> through it, is
  ever called later (by the image upload of the tool panel, see \<open>ImageLoaded\<close> below); every
  other handler is called from clicks alone and takes the one state.

  \<^verbatim>\<open>
  const addToHistory = (newAnnotations) => {
    const newHistory = history.slice(0, historyIndex + 1);
    newHistory.push(newAnnotations);
    setHistory(newHistory);
    setHistoryIndex(newHistory.length - 1);
  };\<close>
\<close>

definition addToHistory :: "annotation list \<Rightarrow> editor \<Rightarrow> editor \<Rightarrow> editor" where
  "addToHistory newAnnotations render live =
     (let newHistory = slice0 (history render) (historyIndex render + 1) @ [newAnnotations]
      in live\<lparr>history := newHistory, historyIndex := int (length newHistory) - 1\<rparr>)"

text \<open>
  \<^verbatim>\<open>
  const handleAddAnnotation = (annotation) => {
    const newAnnotation = { ...annotation, id: Date.now(), page: currentPage,
                            layer: layers.length };
    setAnnotations(prev => [...prev, newAnnotation]);
    addToHistory([...annotations, newAnnotation]);
    ...toast...
  };\<close>
  The reading of the clock is an input of the handler. \<^verbatim>\<open>prev\<close> is the live annotation set;
  \<^verbatim>\<open>annotations\<close>, \<^verbatim>\<open>currentPage\<close>, \<^verbatim>\<open>layers\<close> and what \<^verbatim>\<open>addToHistory\<close> reads are the render's.
\<close>

definition handleAddAnnotation :: "int \<Rightarrow> annotation \<Rightarrow> editor \<Rightarrow> editor \<Rightarrow> editor" where
  "handleAddAnnotation now annotation render live =
     (let newAnnotation = annotation\<lparr>a_id := Some now, a_page := Some (currentPage render),
                                      a_layer := Some (length (layers render))\<rparr>
      in addToHistory (annotations render @ [newAnnotation]) render
           (live\<lparr>annotations := annotations live @ [newAnnotation]\<rparr>))"

text \<open>
  \<^verbatim>\<open>
  const handleAddSignature = (signature) => {
    const newSignature = { ...signature, id: Date.now(), page: currentPage };
    setAnnotations(prev => [...prev, newSignature]);
    addToHistory([...annotations, newSignature]);
    ...toast...
  };\<close>
  The one caller, \<^verbatim>\<open>handleUseSignature\<close> of the signature library, runs in the click that the
  current render dispatches, so that here the render and the live state are one state.
\<close>

definition handleAddSignature :: "int \<Rightarrow> annotation \<Rightarrow> editor \<Rightarrow> editor" where
  "handleAddSignature now signature s =
     (let newSignature = signature\<lparr>a_id := Some now, a_page := Some (currentPage s)\<rparr>
      in addToHistory (annotations s @ [newSignature]) s
           (s\<lparr>annotations := annotations s @ [newSignature]\<rparr>))"

text \<open>
  \<^verbatim>\<open>history[i]\<close> outside the array is \<^verbatim>\<open>undefined\<close>, and \<^verbatim>\<open>setAnnotations(undefined)\<close> makes
  the next render throw (\<^verbatim>\<open>annotations.filter\<close>, \<^verbatim>\<open>annotations.reduce\<close>). That outcome is the
  fault below; the handlers that read the history return a sum.
\<close>

datatype fault = UndefinedSnapshot

text \<open>
  \<^verbatim>\<open>
  const handleUndo = () => {
    if (historyIndex > 0) {
      setHistoryIndex(historyIndex - 1);
      setAnnotations(history[historyIndex - 1]);
      ...toast...
    }
  };\<close>
  The Undo button carries \<^verbatim>\<open>disabled={historyIndex <= 0}\<close>.
\<close>

definition handleUndo :: "editor \<Rightarrow> fault + editor" where
  "handleUndo s =
     (if historyIndex s > 0 then
        (case at_index (history s) (historyIndex s - 1) of
           None \<Rightarrow> Inl UndefinedSnapshot
         | Some snapshot \<Rightarrow>
             Inr (s\<lparr>historyIndex := historyIndex s - 1, annotations := snapshot\<rparr>))
      else Inr s)"

definition undoDisabled :: "editor \<Rightarrow> bool" where
  "undoDisabled s = (historyIndex s \<le> 0)"

text \<open>
  \<^verbatim>\<open>
  const handleRedo = () => {
    if (historyIndex < history.length - 1) {
      setHistoryIndex(historyIndex + 1);
      setAnnotations(history[historyIndex + 1]);
      ...toast...
    }
  };\<close>
  The Redo button carries \<^verbatim>\<open>disabled={historyIndex >= history.length - 1}\<close>.
\<close>

definition handleRedo :: "editor \<Rightarrow> fault + editor" where
  "handleRedo s =
     (if historyIndex s < int (length (history s)) - 1 then
        (case at_index (history s) (historyIndex s + 1) of
           None \<Rightarrow> Inl UndefinedSnapshot
         | Some snapshot \<Rightarrow>
             Inr (s\<lparr>historyIndex := historyIndex s + 1, annotations := snapshot\<rparr>))
      else Inr s)"

definition redoDisabled :: "editor \<Rightarrow> bool" where
  "redoDisabled s = (historyIndex s \<ge> int (length (history s)) - 1)"

text \<open>Sequencing of two handlers, the second running only if the first did not fault.\<close>

definition and_then :: "fault + 'a \<Rightarrow> ('a \<Rightarrow> fault + 'b) \<Rightarrow> fault + 'b" where
  "and_then r f = (case r of Inl e \<Rightarrow> Inl e | Inr v \<Rightarrow> f v)"

text \<open>
  \<^verbatim>\<open>
  const handlePageChange = (direction) => {
    if (direction === 'next' && currentPage < totalPages) setCurrentPage(currentPage + 1);
    else if (direction === 'prev' && currentPage > 1) setCurrentPage(currentPage - 1);
  };\<close>
\<close>

definition handlePageChange :: "string \<Rightarrow> editor \<Rightarrow> editor" where
  "handlePageChange direction s =
     (if direction = ''next'' \<and> currentPage s < totalPages s
        then s\<lparr>currentPage := currentPage s + 1\<rparr>
      else if direction = ''prev'' \<and> currentPage s > 1
        then s\<lparr>currentPage := currentPage s - 1\<rparr>
      else s)"

text \<open>
  \<^verbatim>\<open>handleFileUpload\<close>: \<^verbatim>\<open>event.target.files[0]\<close> may be absent; a file larger than 100MB or of a
  type other than \<^verbatim>\<open>application/pdf\<close> is refused with a toast; otherwise the page, the
  annotations, the layers and the history are reset.
\<close>

record upload =
  f_size :: nat
  f_type :: string

definition handleFileUpload :: "upload option \<Rightarrow> editor \<Rightarrow> editor" where
  "handleFileUpload fo s =
     (case fo of
        None \<Rightarrow> s
      | Some f \<Rightarrow>
          if f_size f > 100 * 1024 * 1024 then s
          else if f_type f \<noteq> ''application/pdf'' then s
          else s\<lparr>currentPage := 1, annotations := [], layers := [],
                 history := [], historyIndex := - 1\<rparr>)"

section \<open>LayerManager.jsx\<close>

text \<open>
  \<^verbatim>\<open>
  const groupedAnnotations = annotations.reduce((acc, annotation) => {
    const layer = annotation.layer || 0;
    if (!acc[layer]) { acc[layer] = []; }
    acc[layer].push(annotation);
    return acc;
  }, {});\<close>
  The accumulator object is an association list from layer keys to groups; \<open>add_to_group\<close>
  is the body of the reducer. An absent layer, like layer 0, is falsy and counts as key 0.
\<close>

definition layer_key :: "annotation \<Rightarrow> nat" where
  "layer_key annotation = (case a_layer annotation of None \<Rightarrow> 0 | Some l \<Rightarrow> l)"

fun add_to_group :: "(nat \<times> annotation list) list \<Rightarrow> annotation \<Rightarrow> (nat \<times> annotation list) list" where
  "add_to_group [] annotation = [(layer_key annotation, [annotation])]"
| "add_to_group ((k, g) # acc) annotation =
     (if k = layer_key annotation then (k, g @ [annotation]) # acc
      else (k, g) # add_to_group acc annotation)"

definition groupedAnnotations :: "annotation list \<Rightarrow> (nat \<times> annotation list) list" where
  "groupedAnnotations anns = foldl add_to_group [] anns"

text \<open>
  \<^verbatim>\<open>
  const layerList = Object.keys(groupedAnnotations).map(layerIndex => ({
    index: parseInt(layerIndex),
    annotations: groupedAnnotations[layerIndex],
    visible: true
  }));\<close>
  \<^verbatim>\<open>Object.keys\<close> lists integer keys in ascending order.
\<close>

definition group_at :: "(nat \<times> annotation list) list \<Rightarrow> nat \<Rightarrow> annotation list" where
  "group_at grouped k = (case map_of grouped k of None \<Rightarrow> [] | Some g \<Rightarrow> g)"

definition layerList :: "annotation list \<Rightarrow> layer_entry list" where
  "layerList anns =
     map (\<lambda>layerIndex. \<lparr>l_index = layerIndex,
                         l_annotations = group_at (groupedAnnotations anns) layerIndex,
                         l_visible = True\<rparr>)
         (sort (map fst (groupedAnnotations anns)))"

text \<open>
  \<^verbatim>\<open>
  const handleMoveLayer = (layerIndex, direction) => {
    const currentAnnotations = [...annotations];
    const layerAnnotations = currentAnnotations.filter(a => a.layer === layerIndex);
    if (direction === 'up') {
      layerAnnotations.forEach(annotation => {
        annotation.layer = Math.min(annotation.layer + 1, layerList.length); });
    } else {
      layerAnnotations.forEach(annotation => {
        annotation.layer = Math.max(annotation.layer - 1, 0); });
    }
    onAnnotationsChange(currentAnnotations);
    ...toast...
  };\<close>
  The function below is the array handed to \<^verbatim>\<open>onAnnotationsChange\<close>. \<^verbatim>\<open>layerList\<close> is the one of
  the current render, computed from the annotations before the move. The source writes the
  new layer into the annotation objects themselves, which any history snapshot holding the
  same objects shares.
\<close>

definition handleMoveLayer :: "nat \<Rightarrow> string \<Rightarrow> annotation list \<Rightarrow> annotation list" where
  "handleMoveLayer layerIndex direction anns =
     map (\<lambda>a. if a_layer a = Some layerIndex then
                 (if direction = ''up''
                  then a\<lparr>a_layer := Some (min (layerIndex + 1) (length (layerList anns)))\<rparr>
                  else a\<lparr>a_layer := Some (nat (max (int layerIndex - 1) 0))\<rparr>)
               else a) anns"

text \<open>
  The buttons of a layer entry: Move Up carries
  \<^verbatim>\<open>disabled={layer.index >= layerList.length - 1}\<close>, Move Down carries
  \<^verbatim>\<open>disabled={layer.index <= 0}\<close>.
\<close>

definition moveUpDisabled :: "annotation list \<Rightarrow> nat \<Rightarrow> bool" where
  "moveUpDisabled anns layerIndex = (int layerIndex \<ge> int (length (layerList anns)) - 1)"

definition moveDownDisabled :: "nat \<Rightarrow> bool" where
  "moveDownDisabled layerIndex = (layerIndex \<le> 0)"

text \<open>
  \<^verbatim>\<open>
  const handleDeleteLayer = (layerIndex) => {
    const updatedAnnotations = annotations.filter(a => a.layer !== layerIndex);
    onAnnotationsChange(updatedAnnotations);
    ...toast...
  };\<close>
  PDFEditor passes \<^verbatim>\<open>onAnnotationsChange={setAnnotations}\<close>: \<open>onAnnotationsChange\<close> replaces the
  annotations and nothing else.
\<close>

definition handleDeleteLayer :: "nat \<Rightarrow> annotation list \<Rightarrow> annotation list" where
  "handleDeleteLayer layerIndex anns = filter (\<lambda>a. a_layer a \<noteq> Some layerIndex) anns"

definition onAnnotationsChange :: "annotation list \<Rightarrow> editor \<Rightarrow> editor" where
  "onAnnotationsChange anns s = s\<lparr>annotations := anns\<rparr>"

definition deleteLayer :: "nat \<Rightarrow> editor \<Rightarrow> editor" where
  "deleteLayer layerIndex s =
     onAnnotationsChange (handleDeleteLayer layerIndex (annotations s)) s"

text \<open>
  \<^verbatim>\<open>
  const handleToggleVisibility = (layerIndex) => {
    // For now, just show toast. In a full implementation, you'd track visibility state
    toast({ ... });
  };\<close>
  Neither \<^verbatim>\<open>onLayersChange\<close> nor \<^verbatim>\<open>onAnnotationsChange\<close> is called: no state changes.
\<close>

definition handleToggleVisibility :: "nat \<Rightarrow> editor \<Rightarrow> editor" where
  "handleToggleVisibility layerIndex s = s"

section \<open>PDFViewer.jsx\<close>

text \<open>
  The canvas calls of \<^verbatim>\<open>drawAnnotation\<close>, one constructor for each case of its switch. A
  call is kept with the annotation it paints and the zoom level, by which every coordinate
  is multiplied. \<open>DrawArrow\<close> is the call of \<^verbatim>\<open>drawArrow\<close>.
\<close>

datatype canvas_call =
    FillText annotation real
  | StrokeRect annotation real
  | Arc annotation real
  | FillRect annotation real
  | DrawArrow annotation real
  | DrawImage annotation real

fun painted :: "canvas_call \<Rightarrow> annotation" where
  "painted (FillText a z) = a"
| "painted (StrokeRect a z) = a"
| "painted (Arc a z) = a"
| "painted (FillRect a z) = a"
| "painted (DrawArrow a z) = a"
| "painted (DrawImage a z) = a"

text \<open>
  What a piece of drawing code does: the calls it makes on the canvas while it runs, in
  order, and the \<^verbatim>\<open>onload\<close> callbacks it registers on images, in order of registration. A
  callback is the call it will make when its image has decoded, which is after the code
  that registered it has run to its end, and never if the image does not decode.
\<close>

record pass =
  issued :: "canvas_call list"
  registered :: "canvas_call list"

definition nothing :: pass where
  "nothing = \<lparr>issued = [], registered = []\<rparr>"

definition and_next :: "pass \<Rightarrow> pass \<Rightarrow> pass" where
  "and_next p q = \<lparr>issued = issued p @ issued q, registered = registered p @ registered q\<rparr>"

text \<open>A string is truthy unless it is absent or empty.\<close>

definition truthy :: "string option \<Rightarrow> bool" where
  "truthy v = (case v of None \<Rightarrow> False | Some t \<Rightarrow> t \<noteq> [])"

text \<open>
  \<^verbatim>\<open>drawAnnotation\<close>: a switch on the type. The cases \<^verbatim>\<open>text\<close>, \<^verbatim>\<open>rectangle\<close>, \<^verbatim>\<open>circle\<close>,
  \<^verbatim>\<open>highlight\<close> and \<^verbatim>\<open>arrow\<close> paint at once. The case \<^verbatim>\<open>signature\<close> paints nothing itself:
  \<^verbatim>\<open>
      case 'signature':
        if (annotation.imageData) {
          const img = new Image();
          img.onload = () => {
            ctx.drawImage(img, x * zoomLevel, y * zoomLevel, width * zoomLevel, height * zoomLevel);
          };
          img.src = annotation.imageData;
        }
        break;\<close>
  Any other type, \<^verbatim>\<open>image\<close> included, matches no case.
\<close>

definition drawAnnotation :: "real \<Rightarrow> annotation \<Rightarrow> pass" where
  "drawAnnotation zoomLevel annotation =
     (if a_type annotation = ''text'' then nothing\<lparr>issued := [FillText annotation zoomLevel]\<rparr>
      else if a_type annotation = ''rectangle''
        then nothing\<lparr>issued := [StrokeRect annotation zoomLevel]\<rparr>
      else if a_type annotation = ''circle'' then nothing\<lparr>issued := [Arc annotation zoomLevel]\<rparr>
      else if a_type annotation = ''highlight''
        then nothing\<lparr>issued := [FillRect annotation zoomLevel]\<rparr>
      else if a_type annotation = ''arrow''
        then nothing\<lparr>issued := [DrawArrow annotation zoomLevel]\<rparr>
      else if a_type annotation = ''signature'' then
        (if truthy (a_imageData annotation)
         then nothing\<lparr>registered := [DrawImage annotation zoomLevel]\<rparr> else nothing)
      else nothing)"

text \<open>
  \<^verbatim>\<open>
  const drawAnnotations = (ctx) => {
    annotations
      .filter(annotation => annotation.page === currentPage)
      .forEach(annotation => { drawAnnotation(ctx, annotation); });
  };\<close>
\<close>

definition drawAnnotations :: "int \<Rightarrow> real \<Rightarrow> annotation list \<Rightarrow> pass" where
  "drawAnnotations page zoomLevel anns =
     foldl and_next nothing
       (map (drawAnnotation zoomLevel)
          (filter (\<lambda>annotation. a_page annotation = Some page) anns))"

text \<open>
  What the canvas receives from one pass, up to the next redraw: the calls of the pass,
  then the callbacks of the images that decode, in the order in which they decode.
  \<open>decoded\<close> lists, in that order, the positions of those images among the registered
  callbacks; a position that names no callback, or is named again, counts for nothing.
\<close>

definition fired :: "nat list \<Rightarrow> canvas_call list \<Rightarrow> canvas_call list" where
  "fired decoded callbacks =
     map (\<lambda>i. callbacks ! i) (filter (\<lambda>i. i < length callbacks) (remdups decoded))"

definition canvas :: "pass \<Rightarrow> nat list \<Rightarrow> canvas_call list" where
  "canvas p decoded = issued p @ fired decoded (registered p)"

text \<open>The state cells of the viewer: \<^verbatim>\<open>isDrawing\<close>, \<^verbatim>\<open>startPoint\<close>, \<^verbatim>\<open>currentAnnotation\<close>.\<close>

record viewer =
  isDrawing :: bool
  startPoint :: "(real \<times> real) option"
  currentAnnotation :: "annotation option"

text \<open>An object literal sets the fields it names; every other field is absent.\<close>

definition blank :: annotation where
  "blank = \<lparr>a_type = [], a_x = 0, a_y = 0, a_width = None, a_height = None, a_color = None,
     a_text = None, a_fontSize = None, a_imageData = None, a_id = None, a_page = None,
     a_layer = None\<rparr>"

text \<open>
  \<^verbatim>\<open>handleMouseDown\<close>: nothing for the select tool; otherwise the start point is recorded and
  drawing begins. For the text tool the user is prompted (the answer is an input: \<open>None\<close>
  when the prompt is cancelled), a non-empty answer is handed to \<^verbatim>\<open>onAddAnnotation\<close>, and
  drawing ends at once. A handler returns the new viewer state and the draft it hands to
  \<^verbatim>\<open>onAddAnnotation\<close>, if any.
\<close>

definition handleMouseDown ::
  "string \<Rightarrow> real \<times> real \<Rightarrow> string option \<Rightarrow> viewer \<Rightarrow> viewer \<times> annotation option" where
  "handleMouseDown selectedTool point answer v =
     (if selectedTool = ''select'' then (v, None)
      else if selectedTool = ''text'' then
        (v\<lparr>startPoint := Some point, isDrawing := False\<rparr>,
         if truthy answer
         then Some (blank\<lparr>a_type := ''text'', a_x := fst point, a_y := snd point,
                          a_text := answer, a_fontSize := Some 14, a_color := Some ''#000''\<rparr>)
         else None)
      else (v\<lparr>startPoint := Some point, isDrawing := True\<rparr>, None))"

text \<open>
  \<^verbatim>\<open>
  const handleMouseMove = (event) => {
    if (!isDrawing || !startPoint) return;
    const point = getCanvasCoordinates(event);
    if (['rectangle', 'circle', 'highlight', 'arrow'].includes(selectedTool)) {
      const annotation = {
        type: selectedTool,
        x: Math.min(startPoint.x, point.x),
        y: Math.min(startPoint.y, point.y),
        width: Math.abs(point.x - startPoint.x),
        height: Math.abs(point.y - startPoint.y),
        color: selectedTool === 'highlight' ? 'rgba(255, 255, 0, 0.3)' : '#000'
      };
      setCurrentAnnotation(annotation);
    }
  };\<close>
\<close>

text \<open>
  \<open>rnd\<close> is the rounding of a real number to the nearest double, which the subtraction of
  two doubles applies to their exact difference.
\<close>

definition handleMouseMove ::
  "(real \<Rightarrow> real) \<Rightarrow> string \<Rightarrow> real \<times> real \<Rightarrow> viewer \<Rightarrow> viewer" where
  "handleMouseMove rnd selectedTool point v =
     (case startPoint v of
        None \<Rightarrow> v
      | Some start \<Rightarrow>
          if \<not> isDrawing v then v
          else if selectedTool \<in> set [''rectangle'', ''circle'', ''highlight'', ''arrow''] then
            v\<lparr>currentAnnotation := Some (blank\<lparr>a_type := selectedTool,
                 a_x := min (fst start) (fst point),
                 a_y := min (snd start) (snd point),
                 a_width := Some \<bar>rnd (fst point - fst start)\<bar>,
                 a_height := Some \<bar>rnd (snd point - snd start)\<bar>,
                 a_color := Some (if selectedTool = ''highlight''
                                  then ''rgba(255, 255, 0, 0.3)'' else ''#000'')\<rparr>)\<rparr>
          else v)"

text \<open>
  \<^verbatim>\<open>
  const handleMouseUp = () => {
    if (!isDrawing || !currentAnnotation) {
      setIsDrawing(false); setStartPoint(null); setCurrentAnnotation(null);
      return;
    }
    if (currentAnnotation.width > 5 && currentAnnotation.height > 5) {
      onAddAnnotation(currentAnnotation);
    }
    setIsDrawing(false); setStartPoint(null); setCurrentAnnotation(null);
  };\<close>
  A comparison with an absent field is false.
\<close>

definition exceeds5 :: "real option \<Rightarrow> bool" where
  "exceeds5 v = (case v of None \<Rightarrow> False | Some r \<Rightarrow> r > 5)"

definition handleMouseUp :: "viewer \<Rightarrow> viewer \<times> annotation option" where
  "handleMouseUp v =
     (let idle = v\<lparr>isDrawing := False, startPoint := None, currentAnnotation := None\<rparr>
      in case currentAnnotation v of
           None \<Rightarrow> (idle, None)
         | Some draft \<Rightarrow>
             if \<not> isDrawing v then (idle, None)
             else if exceeds5 (a_width draft) \<and> exceeds5 (a_height draft)
               then (idle, Some draft)
             else (idle, None))"

text \<open>
  PDFEditor passes \<^verbatim>\<open>onAddAnnotation={handleAddAnnotation}\<close> to the viewer: a pointer-up on the
  canvas runs \<^verbatim>\<open>handleMouseUp\<close> and, through it, possibly \<^verbatim>\<open>handleAddAnnotation\<close>, both of the
  current render.
\<close>

definition onMouseUp :: "int \<Rightarrow> viewer \<times> editor \<Rightarrow> viewer \<times> editor" where
  "onMouseUp now vs =
     (case handleMouseUp (fst vs) of
        (v', None) \<Rightarrow> (v', snd vs)
      | (v', Some draft) \<Rightarrow> (v', handleAddAnnotation now draft (snd vs) (snd vs)))"

section \<open>Sessions\<close>

text \<open>
  SignatureLibrary: the only caller of \<^verbatim>\<open>onAddSignature\<close>, which PDFEditor binds to
  \<^verbatim>\<open>handleAddSignature\<close>.
  \<^verbatim>\<open>
  const handleUseSignature = (signature) => {
    onAddSignature({ type: 'signature', x: 100, y: 100, width: 200, height: 100,
                     imageData: signature.imageData });
  };\<close>
\<close>

definition handleUseSignature :: "string option \<Rightarrow> annotation" where
  "handleUseSignature imageData =
     blank\<lparr>a_type := ''signature'', a_x := 100, a_y := 100, a_width := Some 200,
           a_height := Some 100, a_imageData := imageData\<rparr>"

text \<open>
  ToolPanel: the image tool opens a file dialog; \<^verbatim>\<open>handleImageUpload\<close> checks the type of the
  chosen file and starts a \<^verbatim>\<open>FileReader\<close>, whose \<^verbatim>\<open>onload\<close> callback commits the image.
  \<^verbatim>\<open>
      reader.onload = (e) => {
        onAddAnnotation({ type: 'image', x: 100, y: 100, width: 200, height: 150,
                          imageData: e.target.result });
      };
      reader.readAsDataURL(file);\<close>
  \<^verbatim>\<open>onAddAnnotation\<close> is the \<^verbatim>\<open>handleAddAnnotation\<close> of the render in which the file was chosen;
  the callback runs when the file has been read, by which time other events may have
  changed the state.
\<close>

definition handleImageUpload :: "string \<Rightarrow> annotation" where
  "handleImageUpload result =
     blank\<lparr>a_type := ''image'', a_x := 100, a_y := 100, a_width := Some 200,
           a_height := Some 150, a_imageData := Some result\<rparr>"

text \<open>
  The events of an editing session, each with the inputs its handler reads from outside
  the state: the clock and the draft for a commit from the viewer, the clock and the image
  of the chosen library entry for a signature, the direction for a page change, the chosen
  file for an upload, the layer index for the layer buttons. \<open>ImageLoaded now result k\<close> is
  the \<^verbatim>\<open>onload\<close> of an image file that was chosen \<open>k\<close> renders ago: choosing a file changes
  no state, so any earlier render of the session, and the current one (\<open>k = 0\<close>), may be
  the one whose \<^verbatim>\<open>handleAddAnnotation\<close> the callback holds. No event moves a layer: in every
  state a session reaches both move buttons of every layer are disabled
  (\<open>move_buttons_disabled\<close> below).
\<close>

datatype event =
    AddAnnotation int annotation
  | UseSignature int "string option"
  | ImageLoaded int string nat
  | Undo
  | Redo
  | PageChange string
  | FileUpload "upload option"
  | DeleteLayer nat
  | ToggleVisibility nat

text \<open>
  One event, on the live state \<open>s\<close>. \<open>renders\<close> are the states of the session so far, the
  latest first; its head is \<open>s\<close> itself.
\<close>

fun step :: "editor list \<Rightarrow> event \<Rightarrow> editor \<Rightarrow> fault + editor" where
  "step renders (AddAnnotation now draft) s = Inr (handleAddAnnotation now draft s s)"
| "step renders (UseSignature now imageData) s =
     Inr (handleAddSignature now (handleUseSignature imageData) s)"
| "step renders (ImageLoaded now result k) s =
     (case at_index renders (int k) of
        None \<Rightarrow> Inr s
      | Some render \<Rightarrow> Inr (handleAddAnnotation now (handleImageUpload result) render s))"
| "step renders Undo s = handleUndo s"
| "step renders Redo s = handleRedo s"
| "step renders (PageChange direction) s = Inr (handlePageChange direction s)"
| "step renders (FileUpload fo) s = Inr (handleFileUpload fo s)"
| "step renders (DeleteLayer layerIndex) s = Inr (deleteLayer layerIndex s)"
| "step renders (ToggleVisibility layerIndex) s = Inr (handleToggleVisibility layerIndex s)"

fun run_after :: "editor list \<Rightarrow> event list \<Rightarrow> editor \<Rightarrow> fault + editor" where
  "run_after earlier [] s = Inr s"
| "run_after earlier (e # es) s =
     and_then (step (s # earlier) e s) (run_after (s # earlier) es)"

definition run :: "event list \<Rightarrow> editor \<Rightarrow> fault + editor" where
  "run es s = run_after [] es s"

text \<open>The clock readings of a session, in order.\<close>

fun clocks :: "event list \<Rightarrow> int list" where
  "clocks [] = []"
| "clocks (AddAnnotation now draft # es) = now # clocks es"
| "clocks (UseSignature now imageData # es) = now # clocks es"
| "clocks (ImageLoaded now result k # es) = now # clocks es"
| "clocks (e # es) = clocks es"

section \<open>Invariants and sample inputs\<close>

text \<open>The cursor is \<open>-1\<close> or an index of the snapshot sequence.\<close>

definition cursor_in_range :: "editor \<Rightarrow> bool" where
  "cursor_in_range s = (- 1 \<le> historyIndex s \<and> historyIndex s < int (length (history s)))"

text \<open>The annotation set on display is the snapshot under the cursor.\<close>

definition showing_snapshot :: "editor \<Rightarrow> bool" where
  "showing_snapshot s =
     (if historyIndex s = - 1 then history s = [] \<and> annotations s = []
      else at_index (history s) (historyIndex s) = Some (annotations s))"

definition steady :: "editor \<Rightarrow> bool" where
  "steady s = (cursor_in_range s \<and> layers s = [])"

text \<open>
  Every id, in the annotation set and in every snapshot, is a clock reading from \<open>U\<close>, and
  no annotation set or snapshot holds an id twice.
\<close>

definition ids_within :: "int set \<Rightarrow> editor \<Rightarrow> bool" where
  "ids_within U s =
     (\<forall>snap \<in> insert (annotations s) (set (history s)).
        distinct (map a_id snap) \<and> set (map a_id snap) \<subseteq> Some ` U)"

text \<open>Every annotation, on display or in a snapshot, has layer key 0.\<close>

definition flat :: "editor \<Rightarrow> bool" where
  "flat s =
     (\<forall>snap \<in> insert (annotations s) (set (history s)). \<forall>a \<in> set snap. layer_key a = 0)"

definition rectangleDraft :: annotation where
  "rectangleDraft = blank\<lparr>a_type := ''rectangle'', a_x := 10, a_y := 20,
     a_width := Some 30, a_height := Some 40, a_color := Some ''#000''\<rparr>"

definition circleDraft :: annotation where
  "circleDraft = blank\<lparr>a_type := ''circle'', a_x := 50, a_y := 60,
     a_width := Some 20, a_height := Some 20, a_color := Some ''#000''\<rparr>"

definition arrowDraft :: annotation where
  "arrowDraft = blank\<lparr>a_type := ''arrow'', a_x := 1, a_y := 2,
     a_width := Some 30, a_height := Some 30, a_color := Some ''#000''\<rparr>"

text \<open>One commit on page 1 at clock reading 1000, and the annotation it stores.\<close>

definition oneCommitted :: editor where
  "oneCommitted = handleAddAnnotation 1000 rectangleDraft initial initial"

definition committedRectangle :: annotation where
  "committedRectangle = rectangleDraft\<lparr>a_id := Some 1000, a_page := Some 1, a_layer := Some 0\<rparr>"

text \<open>A second commit at clock reading 2000, and the annotation it stores.\<close>

definition twoCommitted :: editor where
  "twoCommitted = handleAddAnnotation 2000 circleDraft oneCommitted oneCommitted"

definition committedCircle :: annotation where
  "committedCircle = circleDraft\<lparr>a_id := Some 2000, a_page := Some 1, a_layer := Some 0\<rparr>"

text \<open>The second commit within the same tick of the clock as the first.\<close>

definition sameTick :: editor where
  "sameTick = handleAddAnnotation 1000 circleDraft oneCommitted oneCommitted"

text \<open>
  An image file chosen after the first commit and read after the second: the callback
  holds the \<open>handleAddAnnotation\<close> of the render \<open>oneCommitted\<close> and runs at clock reading
  3000 on the live state \<open>twoCommitted\<close>.
\<close>

definition committedImage :: annotation where
  "committedImage = (handleImageUpload ''data:image/png;base64,iVBOR'')
     \<lparr>a_id := Some 3000, a_page := Some 1, a_layer := Some 0\<rparr>"

definition lateImage :: editor where
  "lateImage =
     handleAddAnnotation 3000 (handleImageUpload ''data:image/png;base64,iVBOR'')
       oneCommitted twoCommitted"

text \<open>A rectangle on layer 1 stored before a circle on layer 0, both on page 1.\<close>

definition upperRectangle :: annotation where
  "upperRectangle = rectangleDraft\<lparr>a_id := Some 1000, a_page := Some 1, a_layer := Some 1\<rparr>"

definition lowerCircle :: annotation where
  "lowerCircle = circleDraft\<lparr>a_id := Some 2000, a_page := Some 1, a_layer := Some 0\<rparr>"

text \<open>A signature with image data, as \<open>handleAddSignature\<close> stores it on page 1.\<close>

definition committedSignature :: annotation where
  "committedSignature = (handleUseSignature (Some ''data:image/png;base64,iVBOR''))
     \<lparr>a_id := Some 500, a_page := Some 1\<rparr>"

text \<open>
  The viewer in the middle of a drag with the rectangle tool from (10, 10) to (13, 50),
  and the draft it holds (\<open>narrowDrag_is_a_drag\<close> below).
\<close>

definition idle :: viewer where
  "idle = \<lparr>isDrawing = False, startPoint = None, currentAnnotation = None\<rparr>"

definition narrowDraft :: annotation where
  "narrowDraft = blank\<lparr>a_type := ''rectangle'', a_x := 10, a_y := 10,
     a_width := Some 3, a_height := Some 40, a_color := Some ''#000''\<rparr>"

definition narrowDrag :: viewer where
  "narrowDrag = \<lparr>isDrawing = True, startPoint = Some (10, 10),
                  currentAnnotation = Some narrowDraft\<rparr>"

section \<open>The history engine\<close>

lemma slice0_nonneg: "0 \<le> e \<Longrightarrow> slice0 xs e = take (nat e) xs"
  by (simp add: slice0_def)

lemma addToHistory_fields:
  "history (addToHistory snap render live)
     = slice0 (history render) (historyIndex render + 1) @ [snap]"
  "historyIndex (addToHistory snap render live)
     = int (length (slice0 (history render) (historyIndex render + 1)))"
  "annotations (addToHistory snap render live) = annotations live"
  "currentPage (addToHistory snap render live) = currentPage live"
  "totalPages (addToHistory snap render live) = totalPages live"
  "layers (addToHistory snap render live) = layers live"
  by (simp_all add: addToHistory_def Let_def)

lemma handleAddAnnotation_fields:
  "annotations (handleAddAnnotation now d render live) =
     annotations live @ [d\<lparr>a_id := Some now, a_page := Some (currentPage render),
                           a_layer := Some (length (layers render))\<rparr>]"
  "history (handleAddAnnotation now d render live) =
     slice0 (history render) (historyIndex render + 1)
       @ [annotations render @ [d\<lparr>a_id := Some now, a_page := Some (currentPage render),
                                     a_layer := Some (length (layers render))\<rparr>]]"
  "historyIndex (handleAddAnnotation now d render live) =
     int (length (slice0 (history render) (historyIndex render + 1)))"
  "layers (handleAddAnnotation now d render live) = layers live"
  "currentPage (handleAddAnnotation now d render live) = currentPage live"
  by (simp_all add: handleAddAnnotation_def Let_def addToHistory_fields)

lemma handleAddSignature_fields:
  "annotations (handleAddSignature now d s) =
     annotations s @ [d\<lparr>a_id := Some now, a_page := Some (currentPage s)\<rparr>]"
  "history (handleAddSignature now d s) =
     slice0 (history s) (historyIndex s + 1) @ [annotations (handleAddSignature now d s)]"
  "historyIndex (handleAddSignature now d s) =
     int (length (slice0 (history s) (historyIndex s + 1)))"
  "layers (handleAddSignature now d s) = layers s"
  "currentPage (handleAddSignature now d s) = currentPage s"
  by (simp_all add: handleAddSignature_def Let_def addToHistory_fields)

lemma handlePageChange_fields:
  "annotations (handlePageChange dir s) = annotations s"
  "history (handlePageChange dir s) = history s"
  "historyIndex (handlePageChange dir s) = historyIndex s"
  "layers (handlePageChange dir s) = layers s"
  by (simp_all add: handlePageChange_def)

lemma handleFileUpload_cases:
  "handleFileUpload fo s = s \<or>
   handleFileUpload fo s = s\<lparr>currentPage := 1, annotations := [], layers := [],
                              history := [], historyIndex := - 1\<rparr>"
  by (simp add: handleFileUpload_def split: option.splits)

lemma deleteLayer_fields:
  "annotations (deleteLayer k s) = handleDeleteLayer k (annotations s)"
  "history (deleteLayer k s) = history s"
  "historyIndex (deleteLayer k s) = historyIndex s"
  "layers (deleteLayer k s) = layers s"
  "currentPage (deleteLayer k s) = currentPage s"
  by (simp_all add: deleteLayer_def onAnnotationsChange_def)

lemma at_index_mem: "at_index xs i = Some x \<Longrightarrow> x \<in> set xs"
  by (auto simp: at_index_def split: if_splits)

lemma set_slice0: "set (slice0 xs e) \<subseteq> set xs"
  by (auto simp: slice0_def dest: in_set_takeD)

subsection \<open>The sample states\<close>

lemma oneCommitted_fields:
  "annotations oneCommitted = [committedRectangle]"
  "history oneCommitted = [[committedRectangle]]"
  "historyIndex oneCommitted = 0"
  "currentPage oneCommitted = 1"
  "layers oneCommitted = []"
  by (simp_all add: oneCommitted_def handleAddAnnotation_fields initial_def slice0_def
        committedRectangle_def)

lemma twoCommitted_fields:
  "annotations twoCommitted = [committedRectangle, committedCircle]"
  "history twoCommitted = [[committedRectangle], [committedRectangle, committedCircle]]"
  "historyIndex twoCommitted = 1"
  "currentPage twoCommitted = 1"
  "layers twoCommitted = []"
  by (simp_all add: twoCommitted_def handleAddAnnotation_fields oneCommitted_fields slice0_def
        committedCircle_def)

lemma lateImage_fields:
  "annotations lateImage = [committedRectangle, committedCircle, committedImage]"
  "history lateImage = [[committedRectangle], [committedRectangle, committedImage]]"
  "historyIndex lateImage = 1"
  by (simp_all add: lateImage_def handleAddAnnotation_fields oneCommitted_fields
        twoCommitted_fields slice0_def committedImage_def)

lemma twoCommitted_run:
  "run [AddAnnotation 1000 rectangleDraft, AddAnnotation 2000 circleDraft] initial
     = Inr twoCommitted"
  by (simp add: run_def and_then_def twoCommitted_def oneCommitted_def)

lemma twoCommitted_cursor: "historyIndex twoCommitted = 1"
  by (simp add: twoCommitted_fields)

lemma lateImage_run:
  "run [AddAnnotation 1000 rectangleDraft, AddAnnotation 2000 circleDraft,
        ImageLoaded 3000 ''data:image/png;base64,iVBOR'' 1] initial
     = Inr lateImage"
  by (simp add: run_def and_then_def twoCommitted_def oneCommitted_def lateImage_def
        at_index_def)

subsection \<open>The cursor stays in range, and no handler faults\<close>

lemma commit_cursor:
  "cursor_in_range (handleAddAnnotation now d render live)"
  "cursor_in_range (handleAddSignature now d s)"
  by (simp_all add: cursor_in_range_def handleAddAnnotation_fields handleAddSignature_fields)

lemma handleUndo_cursor:
  assumes "cursor_in_range s"
  shows "\<exists>s'. handleUndo s = Inr s' \<and> cursor_in_range s' \<and> layers s' = layers s"
  using assms by (auto simp: handleUndo_def cursor_in_range_def at_index_def)

lemma handleRedo_cursor:
  assumes "cursor_in_range s"
  shows "\<exists>s'. handleRedo s = Inr s' \<and> cursor_in_range s' \<and> layers s' = layers s"
  using assms by (auto simp: handleRedo_def cursor_in_range_def at_index_def)

lemma step_steady:
  assumes "steady s"
  shows "\<exists>s'. step renders e s = Inr s' \<and> steady s'"
proof (cases e)
  case Undo
  then show ?thesis using assms handleUndo_cursor [of s] by (auto simp: steady_def)
next
  case Redo
  then show ?thesis using assms handleRedo_cursor [of s] by (auto simp: steady_def)
next
  case (FileUpload fo)
  then show ?thesis using assms handleFileUpload_cases [of fo s]
    by (auto simp: steady_def cursor_in_range_def)
next
  case (ImageLoaded now result k)
  then show ?thesis using assms
    by (auto simp: steady_def commit_cursor handleAddAnnotation_fields split: option.splits)
qed (use assms in \<open>simp_all add: steady_def commit_cursor handleAddAnnotation_fields
       handleAddSignature_fields handlePageChange_fields deleteLayer_fields
       cursor_in_range_def handleToggleVisibility_def\<close>)

lemma run_after_steady:
  "steady s \<Longrightarrow> \<exists>s'. run_after earlier es s = Inr s' \<and> steady s'"
proof (induction es arbitrary: s earlier)
  case Nil
  then show ?case by simp
next
  case (Cons e es)
  from step_steady [OF Cons.prems] obtain s1
    where s1: "step (s # earlier) e s = Inr s1" "steady s1"
    by blast
  from Cons.IH [OF s1(2)] show ?case using s1(1) by (simp add: and_then_def)
qed

lemma run_steady:
  "steady s \<Longrightarrow> \<exists>s'. run es s = Inr s' \<and> steady s'"
  unfolding run_def by (rule run_after_steady)

lemma steady_initial: "steady initial"
  by (simp add: steady_def cursor_in_range_def initial_def)

subsection \<open>Undo and redo where the display is the snapshot under the cursor\<close>

lemma commit_showing:
  "showing_snapshot (handleAddAnnotation now d s s)"
  "showing_snapshot (handleAddSignature now d s)"
  by (simp_all add: showing_snapshot_def handleAddAnnotation_fields handleAddSignature_fields
        at_index_def nth_append)

lemma undo_then_redo:
  assumes "cursor_in_range s" "showing_snapshot s" "0 < historyIndex s"
  shows "handleUndo s = Inr (s\<lparr>historyIndex := historyIndex s - 1,
                                annotations := history s ! nat (historyIndex s - 1)\<rparr>)
       \<and> and_then (handleUndo s) handleRedo = Inr s"
  using assms
  by (auto simp: and_then_def handleUndo_def handleRedo_def cursor_in_range_def
        showing_snapshot_def at_index_def)

text \<open>
  C1. The round trip fails in sessions that the interface offers. After two commits and
  the deletion of layer 0 the annotation set is empty while the cursor still points at the
  snapshot of both commits: undo installs the first snapshot, and the redo that follows
  installs both annotations, not the empty set that was there before the undo. After two
  commits and the late arrival of an image chosen between them, the annotation set holds
  three annotations and the last snapshot two: undo followed by redo drops the circle.
\<close>

theorem round_trip_broken:
  "run [AddAnnotation 1000 rectangleDraft, AddAnnotation 2000 circleDraft, DeleteLayer 0]
       initial = Inr (deleteLayer 0 twoCommitted)
   \<and> annotations (deleteLayer 0 twoCommitted) = []
   \<and> historyIndex (deleteLayer 0 twoCommitted) = 1
   \<and> and_then (handleUndo (deleteLayer 0 twoCommitted)) (\<lambda>s. Inr (annotations s, historyIndex s))
       = Inr ([committedRectangle], 0)
   \<and> and_then (and_then (handleUndo (deleteLayer 0 twoCommitted)) handleRedo)
         (\<lambda>s. Inr (annotations s, historyIndex s))
       = Inr ([committedRectangle, committedCircle], 1)
   \<and> run [AddAnnotation 1000 rectangleDraft, AddAnnotation 2000 circleDraft,
          ImageLoaded 3000 ''data:image/png;base64,iVBOR'' 1] initial = Inr lateImage
   \<and> annotations lateImage = [committedRectangle, committedCircle, committedImage]
   \<and> historyIndex lateImage = 1
   \<and> and_then (handleUndo lateImage) (\<lambda>s. Inr (annotations s, historyIndex s))
       = Inr ([committedRectangle], 0)
   \<and> and_then (and_then (handleUndo lateImage) handleRedo)
         (\<lambda>s. Inr (annotations s, historyIndex s))
       = Inr ([committedRectangle, committedImage], 1)"
proof -
  have a: "run [AddAnnotation 1000 rectangleDraft, AddAnnotation 2000 circleDraft,
      DeleteLayer 0] initial = Inr (deleteLayer 0 twoCommitted)"
    by (simp add: run_def and_then_def twoCommitted_def oneCommitted_def)
  have b: "annotations (deleteLayer 0 twoCommitted) = []"
    by (simp add: deleteLayer_fields twoCommitted_fields handleDeleteLayer_def
        committedRectangle_def committedCircle_def)
  have c: "and_then (handleUndo (deleteLayer 0 twoCommitted))
      (\<lambda>s. Inr (annotations s, historyIndex s)) = Inr ([committedRectangle], 0)"
    "and_then (and_then (handleUndo (deleteLayer 0 twoCommitted)) handleRedo)
      (\<lambda>s. Inr (annotations s, historyIndex s))
       = Inr ([committedRectangle, committedCircle], 1)"
    by (simp_all add: and_then_def handleUndo_def handleRedo_def at_index_def
        deleteLayer_fields twoCommitted_fields)
  have d: "and_then (handleUndo lateImage) (\<lambda>s. Inr (annotations s, historyIndex s))
       = Inr ([committedRectangle], 0)"
    "and_then (and_then (handleUndo lateImage) handleRedo)
      (\<lambda>s. Inr (annotations s, historyIndex s))
       = Inr ([committedRectangle, committedImage], 1)"
    by (simp_all add: and_then_def handleUndo_def handleRedo_def at_index_def
        lateImage_fields)
  from a b c d lateImage_run show ?thesis
    by (simp add: deleteLayer_fields twoCommitted_fields lateImage_fields)
qed

text \<open>
  C2. With the cursor of the render at \<open>-1\<close> or above, \<open>addToHistory\<close> keeps the snapshots
  at positions \<open>0 .. historyIndex\<close>, appends the new snapshot and puts the cursor on the
  last index, so that redo is disabled. In particular: after three commits the cursor is
  2; after two undos it is 0; a fourth commit leaves a sequence of length 2 with the
  cursor at 1, and redo is then disabled and changes nothing.
\<close>

theorem push_truncates:
  assumes "- 1 \<le> historyIndex s"
  shows "history (addToHistory snapshot s live)
           = take (nat (historyIndex s + 1)) (history s) @ [snapshot]
       \<and> historyIndex (addToHistory snapshot s live)
           = int (length (history (addToHistory snapshot s live))) - 1
       \<and> redoDisabled (addToHistory snapshot s live)
       \<and> (\<exists>s3 s5 s6.
            run [AddAnnotation t1 d1, AddAnnotation t2 d2, AddAnnotation t3 d3] initial = Inr s3
          \<and> historyIndex s3 = 2
          \<and> run [Undo, Undo] s3 = Inr s5 \<and> historyIndex s5 = 0
          \<and> run [AddAnnotation t4 d4] s5 = Inr s6
          \<and> length (history s6) = 2 \<and> historyIndex s6 = 1
          \<and> redoDisabled s6 \<and> handleRedo s6 = Inr s6)"
proof -
  have "slice0 (history s) (historyIndex s + 1) = take (nat (historyIndex s + 1)) (history s)"
    using assms by (simp add: slice0_nonneg)
  then have general:
    "history (addToHistory snapshot s live)
       = take (nat (historyIndex s + 1)) (history s) @ [snapshot]"
    "historyIndex (addToHistory snapshot s live)
       = int (length (history (addToHistory snapshot s live))) - 1"
    "redoDisabled (addToHistory snapshot s live)"
    by (simp_all add: addToHistory_fields redoDisabled_def)
  have "\<exists>s3 s5 s6.
            run [AddAnnotation t1 d1, AddAnnotation t2 d2, AddAnnotation t3 d3] initial = Inr s3
          \<and> historyIndex s3 = 2
          \<and> run [Undo, Undo] s3 = Inr s5 \<and> historyIndex s5 = 0
          \<and> run [AddAnnotation t4 d4] s5 = Inr s6
          \<and> length (history s6) = 2 \<and> historyIndex s6 = 1
          \<and> redoDisabled s6 \<and> handleRedo s6 = Inr s6"
    by (simp add: run_def and_then_def handleAddAnnotation_fields initial_def slice0_def
        handleUndo_def at_index_def handleRedo_def redoDisabled_def)
  with general show ?thesis by blast
qed

theorem push_truncates_witness:
  "- 1 \<le> historyIndex (twoCommitted\<lparr>historyIndex := 0\<rparr>)
   \<and> length (history (twoCommitted\<lparr>historyIndex := 0\<rparr>)) = 2
   \<and> history (addToHistory [arrowDraft] (twoCommitted\<lparr>historyIndex := 0\<rparr>)
        (twoCommitted\<lparr>historyIndex := 0\<rparr>))
       = [hd (history twoCommitted), [arrowDraft]]
   \<and> historyIndex (addToHistory [arrowDraft] (twoCommitted\<lparr>historyIndex := 0\<rparr>)
        (twoCommitted\<lparr>historyIndex := 0\<rparr>)) = 1"
proof -
  have h: "- 1 \<le> historyIndex (twoCommitted\<lparr>historyIndex := 0\<rparr>)" by simp
  from push_truncates [OF h, of "[arrowDraft]" "twoCommitted\<lparr>historyIndex := 0\<rparr>"]
  show ?thesis by (simp add: twoCommitted_fields)
qed

text \<open>
  C8. In every state that a session reaches from the empty editor: when
  \<open>historyIndex \<le> 0\<close> the Undo button is disabled and \<open>handleUndo\<close> changes nothing, neither
  the history nor the annotation set; otherwise the cursor moves down by one and the
  snapshot at the new index, which exists, replaces the whole annotation set. The empty
  editor has \<open>historyIndex = -1\<close>, so undo changes nothing there.
\<close>

theorem undo_boundary:
  assumes "run es initial = Inr s"
  shows "(historyIndex s \<le> 0 \<longrightarrow> undoDisabled s \<and> handleUndo s = Inr s)
       \<and> (0 < historyIndex s \<longrightarrow> \<not> undoDisabled s
            \<and> nat (historyIndex s - 1) < length (history s)
            \<and> handleUndo s = Inr (s\<lparr>historyIndex := historyIndex s - 1,
                                      annotations := history s ! nat (historyIndex s - 1)\<rparr>))
       \<and> historyIndex initial = - 1 \<and> handleUndo initial = Inr initial"
proof -
  from run_steady [OF steady_initial, of es] assms have "cursor_in_range s"
    by (simp add: steady_def)
  then show ?thesis
    by (auto simp: handleUndo_def undoDisabled_def cursor_in_range_def at_index_def initial_def)
qed

theorem undo_boundary_witness:
  "run [AddAnnotation 1000 rectangleDraft, AddAnnotation 2000 circleDraft] initial
     = Inr twoCommitted
   \<and> 0 < historyIndex twoCommitted
   \<and> handleUndo twoCommitted
       = Inr (twoCommitted\<lparr>historyIndex := 0, annotations := history twoCommitted ! 0\<rparr>)
   \<and> run [] initial = Inr initial \<and> historyIndex initial \<le> 0
   \<and> handleUndo initial = Inr initial"
  using undo_boundary [OF twoCommitted_run] undo_boundary [of "[]" initial]
    twoCommitted_run twoCommitted_cursor
  by (simp add: run_def)

section \<open>The drag threshold\<close>

lemma commit_changes: "annotations (handleAddAnnotation now d render s) \<noteq> annotations s"
  by (simp add: handleAddAnnotation_fields)

lemma drag_draft:
  assumes "isDrawing v" and "startPoint v = Some start"
    and "tool \<in> set [''rectangle'', ''circle'', ''highlight'', ''arrow'']"
  shows "\<exists>draft. currentAnnotation (handleMouseMove rnd tool point v) = Some draft
       \<and> isDrawing (handleMouseMove rnd tool point v)
       \<and> a_width draft = Some \<bar>rnd (fst point - fst start)\<bar>
       \<and> a_height draft = Some \<bar>rnd (snd point - snd start)\<bar>"
  using assms by (simp add: handleMouseMove_def)

text \<open>
  The differences of this drag, 3 and 40, are doubles, which rounding leaves as they are.
\<close>

lemma narrowDrag_is_a_drag:
  assumes "rnd 3 = 3" and "rnd 40 = 40"
  shows "handleMouseMove rnd ''rectangle'' (13, 50)
           (fst (handleMouseDown ''rectangle'' (10, 10) None idle)) = narrowDrag"
  using assms
  by (simp add: narrowDrag_def narrowDraft_def handleMouseMove_def handleMouseDown_def idle_def)

text \<open>
  C3. A pointer-up that finds the viewer drawing, with a draft of width \<open>w\<close> and height \<open>h\<close>:
  if \<open>w < 5\<close> or \<open>h < 5\<close> the editor state is left exactly as it was; the draft is handed
  to \<open>handleAddAnnotation\<close>, and the annotation set changes, if and only if both \<open>w\<close> and
  \<open>h\<close> exceed 5. In either case the viewer is idle afterwards.
\<close>

theorem drag_threshold:
  assumes "isDrawing v" and "currentAnnotation v = Some draft"
    and "a_width draft = Some w" and "a_height draft = Some h"
  shows "(w < 5 \<or> h < 5 \<longrightarrow> snd (onMouseUp now (v, s)) = s)
       \<and> snd (onMouseUp now (v, s))
           = (if 5 < w \<and> 5 < h then handleAddAnnotation now draft s s else s)
       \<and> (annotations (snd (onMouseUp now (v, s))) \<noteq> annotations s \<longleftrightarrow> 5 < w \<and> 5 < h)
       \<and> fst (onMouseUp now (v, s))
           = v\<lparr>isDrawing := False, startPoint := None, currentAnnotation := None\<rparr>"
proof -
  have up: "handleMouseUp v =
      (v\<lparr>isDrawing := False, startPoint := None, currentAnnotation := None\<rparr>,
       if 5 < w \<and> 5 < h then Some draft else None)"
    using assms by (simp add: handleMouseUp_def exceeds5_def Let_def)
  then have "snd (onMouseUp now (v, s))
           = (if 5 < w \<and> 5 < h then handleAddAnnotation now draft s s else s)"
    and "fst (onMouseUp now (v, s))
           = v\<lparr>isDrawing := False, startPoint := None, currentAnnotation := None\<rparr>"
    by (simp_all add: onMouseUp_def)
  then show ?thesis using commit_changes [of now draft s s] by auto
qed

theorem drag_threshold_witness:
  "isDrawing narrowDrag \<and> currentAnnotation narrowDrag = Some narrowDraft
   \<and> a_width narrowDraft = Some 3 \<and> a_height narrowDraft = Some 40
   \<and> snd (onMouseUp 1000 (narrowDrag, initial)) = initial"
proof -
  have a: "isDrawing narrowDrag" and b: "currentAnnotation narrowDrag = Some narrowDraft"
    by (simp_all add: narrowDrag_def)
  have c: "a_width narrowDraft = Some 3" and d: "a_height narrowDraft = Some 40"
    by (simp_all add: narrowDraft_def)
  from drag_threshold [OF a b c d, of 1000 initial] a b c d show ?thesis by simp
qed

section \<open>Identifiers\<close>

lemma ids_within_mono: "ids_within U s \<Longrightarrow> U \<subseteq> V \<Longrightarrow> ids_within V s"
  unfolding ids_within_def by blast

lemma ids_commit:
  assumes "ids_within U s" and "ids_within U render" and "now \<notin> U" and "a_id x = Some now"
    and "annotations s' = annotations s @ [x]"
    and "history s' = slice0 (history render) e @ [annotations render @ [x]]"
  shows "ids_within (insert now U) s'"
proof -
  have old: "\<And>snap. snap \<in> insert (annotations s) (set (history s)) \<Longrightarrow>
      distinct (map a_id snap) \<and> set (map a_id snap) \<subseteq> Some ` U"
    using assms(1) unfolding ids_within_def by blast
  have rold: "\<And>snap. snap \<in> insert (annotations render) (set (history render)) \<Longrightarrow>
      distinct (map a_id snap) \<and> set (map a_id snap) \<subseteq> Some ` U"
    using assms(2) unfolding ids_within_def by blast
  have new: "distinct (map a_id (annotations s')) \<and>
      set (map a_id (annotations s')) \<subseteq> Some ` insert now U"
    using old [of "annotations s"] assms(3,4,5) by auto
  have pushed: "distinct (map a_id (annotations render @ [x])) \<and>
      set (map a_id (annotations render @ [x])) \<subseteq> Some ` insert now U"
    using rold [of "annotations render"] assms(3,4) by auto
  have "\<And>snap. snap \<in> set (slice0 (history render) e) \<Longrightarrow>
      distinct (map a_id snap) \<and> set (map a_id snap) \<subseteq> Some ` insert now U"
    using rold set_slice0 [of "history render" e] by blast
  with new pushed show ?thesis unfolding ids_within_def assms(6) by auto
qed

lemma ids_install:
  assumes "ids_within U s" and "at_index (history s) j = Some x"
  shows "ids_within U (s\<lparr>historyIndex := i, annotations := x\<rparr>)"
proof -
  have "x \<in> set (history s)" using assms(2) by (rule at_index_mem)
  then have "distinct (map a_id x) \<and> set (map a_id x) \<subseteq> Some ` U"
    using assms(1) unfolding ids_within_def by blast
  then show ?thesis using assms(1) unfolding ids_within_def by simp
qed

lemma ids_within_cong:
  "annotations s' = annotations s \<Longrightarrow> history s' = history s
     \<Longrightarrow> ids_within U s' = ids_within U s"
  by (simp add: ids_within_def)

lemma ids_deleteLayer:
  assumes "ids_within U s"
  shows "ids_within U (deleteLayer k s)"
proof -
  have "distinct (map a_id (annotations s))" and "set (map a_id (annotations s)) \<subseteq> Some ` U"
    using assms unfolding ids_within_def by blast+
  then have "distinct (map a_id (handleDeleteLayer k (annotations s)))"
    and "set (map a_id (handleDeleteLayer k (annotations s))) \<subseteq> Some ` U"
    by (auto simp: handleDeleteLayer_def distinct_map_filter)
  then show ?thesis using assms unfolding ids_within_def by (simp add: deleteLayer_fields)
qed

lemma ids_step:
  assumes "ids_within U s" and "\<forall>r \<in> set renders. ids_within U r"
    and "set (clocks [e]) \<inter> U = {}" and "step renders e s = Inr s'"
  shows "ids_within (U \<union> set (clocks [e])) s'"
proof (cases e)
  case (AddAnnotation now d)
  then have "now \<notin> U" using assms(3) by simp
  have "ids_within (insert now U) (handleAddAnnotation now d s s)"
    by (rule ids_commit [OF assms(1) assms(1) \<open>now \<notin> U\<close>,
          where x = "d\<lparr>a_id := Some now, a_page := Some (currentPage s),
                        a_layer := Some (length (layers s))\<rparr>" and e = "historyIndex s + 1"])
       (simp_all add: handleAddAnnotation_fields)
  then show ?thesis using assms(4) AddAnnotation by auto
next
  case (UseSignature now im)
  then have "now \<notin> U" using assms(3) by simp
  have "ids_within (insert now U) (handleAddSignature now (handleUseSignature im) s)"
    by (rule ids_commit [OF assms(1) assms(1) \<open>now \<notin> U\<close>,
          where x = "(handleUseSignature im)\<lparr>a_id := Some now, a_page := Some (currentPage s)\<rparr>"
            and e = "historyIndex s + 1"])
       (simp_all add: handleAddSignature_fields)
  then show ?thesis using assms(4) UseSignature by auto
next
  case (ImageLoaded now result k)
  then have fresh: "now \<notin> U" using assms(3) by simp
  show ?thesis
  proof (cases "at_index renders (int k)")
    case None
    then have "s' = s" using assms(4) ImageLoaded by simp
    then show ?thesis using assms(1) ids_within_mono [of U s] by auto
  next
    case (Some render)
    then have r: "ids_within U render" using assms(2) at_index_mem by fastforce
    have "ids_within (insert now U) (handleAddAnnotation now (handleImageUpload result) render s)"
      by (rule ids_commit [OF assms(1) r fresh,
            where x = "(handleImageUpload result)\<lparr>a_id := Some now,
                          a_page := Some (currentPage render),
                          a_layer := Some (length (layers render))\<rparr>"
              and e = "historyIndex render + 1"])
         (simp_all add: handleAddAnnotation_fields)
    then show ?thesis using assms(4) ImageLoaded Some by auto
  qed
next
  case Undo
  then show ?thesis using assms(1,4) ids_install [OF assms(1)]
    by (auto simp: handleUndo_def split: if_splits option.splits)
next
  case Redo
  then show ?thesis using assms(1,4) ids_install [OF assms(1)]
    by (auto simp: handleRedo_def split: if_splits option.splits)
next
  case (PageChange dir)
  then show ?thesis using assms(1,4)
      ids_within_cong [of "handlePageChange dir s" s U]
    by (auto simp: handlePageChange_fields)
next
  case (FileUpload fo)
  have "ids_within U (s\<lparr>currentPage := 1, annotations := [], layers := [],
                         history := [], historyIndex := - 1\<rparr>)"
    by (simp add: ids_within_def)
  then show ?thesis using FileUpload assms(1,4) handleFileUpload_cases [of fo s] by auto
next
  case (DeleteLayer k)
  then show ?thesis using assms(1,4) ids_deleteLayer [of U s k] by auto
next
  case (ToggleVisibility k)
  then show ?thesis using assms(1,4) by (auto simp: handleToggleVisibility_def)
qed

lemma clocks_Cons: "clocks (e # es) = clocks [e] @ clocks es"
  by (cases e) simp_all

lemma ids_run_after:
  "ids_within U s \<Longrightarrow> \<forall>r \<in> set earlier. ids_within U r \<Longrightarrow> distinct (clocks es)
     \<Longrightarrow> set (clocks es) \<inter> U = {} \<Longrightarrow> run_after earlier es s = Inr s'
     \<Longrightarrow> ids_within (U \<union> set (clocks es)) s'"
proof (induction es arbitrary: s U earlier)
  case Nil
  then show ?case by simp
next
  case (Cons e es)
  let ?V = "U \<union> set (clocks [e])"
  from Cons.prems(5) obtain s1
    where s1: "step (s # earlier) e s = Inr s1" "run_after (s # earlier) es s1 = Inr s'"
    by (auto simp: and_then_def split: sum.splits)
  have c: "clocks (e # es) = clocks [e] @ clocks es" by (rule clocks_Cons)
  have all: "\<forall>r \<in> set (s # earlier). ids_within U r"
    using Cons.prems(1,2) by simp
  have "ids_within ?V s1"
    using ids_step [OF Cons.prems(1) all _ s1(1)] Cons.prems(4) c by auto
  moreover have "\<forall>r \<in> set (s # earlier). ids_within ?V r"
    using all ids_within_mono [of U _ ?V] by blast
  moreover have "distinct (clocks es)" using Cons.prems(3) c by simp
  moreover have "set (clocks es) \<inter> ?V = {}"
    using Cons.prems(3,4) c by auto
  ultimately have "ids_within (?V \<union> set (clocks es)) s'"
    using Cons.IH s1(2) by blast
  then show ?case using c by (simp add: Un_assoc)
qed

lemma ids_initial: "ids_within {} initial"
  by (simp add: ids_within_def initial_def)

lemma ids_handleMoveLayer: "map a_id (handleMoveLayer k direction anns) = map a_id anns"
  by (simp add: handleMoveLayer_def comp_def cong: map_cong)

text \<open>
  C9 (amended). The id of a committed annotation is the reading of the clock at the commit.
  In every state reached by a session whose clock readings are pairwise distinct, the ids
  of the annotation set are pairwise distinct, and each is one of those readings. A commit
  appends the draft with its new id and leaves the annotations already stored as they
  were, and \<open>handleMoveLayer\<close> changes no id.
\<close>

theorem ids_distinct_under_distinct_clock:
  assumes "run es initial = Inr s" and "distinct (clocks es)"
  shows "distinct (map a_id (annotations s))
       \<and> set (map a_id (annotations s)) \<subseteq> Some ` set (clocks es)
       \<and> annotations (handleAddAnnotation now draft render s)
           = annotations s @ [draft\<lparr>a_id := Some now, a_page := Some (currentPage render),
                                      a_layer := Some (length (layers render))\<rparr>]
       \<and> annotations (handleAddSignature now signature s)
           = annotations s @ [signature\<lparr>a_id := Some now, a_page := Some (currentPage s)\<rparr>]
       \<and> map a_id (handleMoveLayer k direction anns) = map a_id anns"
proof -
  have "ids_within ({} \<union> set (clocks es)) s"
    using ids_run_after [OF ids_initial _ assms(2), of "[]" s] assms(1)
    by (simp add: run_def)
  then show ?thesis
    by (simp add: ids_within_def handleAddAnnotation_fields handleAddSignature_fields
          ids_handleMoveLayer)
qed

theorem ids_distinct_under_distinct_clock_witness:
  "run [AddAnnotation 1000 rectangleDraft, AddAnnotation 2000 circleDraft] initial
     = Inr twoCommitted
   \<and> distinct (clocks [AddAnnotation 1000 rectangleDraft, AddAnnotation 2000 circleDraft])
   \<and> distinct (map a_id (annotations twoCommitted))
   \<and> map a_id (annotations twoCommitted) = [Some 1000, Some 2000]"
proof -
  have d: "distinct (clocks [AddAnnotation 1000 rectangleDraft, AddAnnotation 2000 circleDraft])"
    by simp
  have "map a_id (annotations twoCommitted) = [Some 1000, Some 2000]"
    by (simp add: twoCommitted_fields committedRectangle_def committedCircle_def)
  with ids_distinct_under_distinct_clock [OF twoCommitted_run d] twoCommitted_run d
  show ?thesis by simp
qed

text \<open>
  Without the condition on the clock the ids need not differ: two commits at the same
  reading store two different annotations with one id.
\<close>

theorem same_clock_same_id:
  "run [AddAnnotation 1000 rectangleDraft, AddAnnotation 1000 circleDraft] initial
     = Inr sameTick
   \<and> length (annotations sameTick) = 2
   \<and> annotations sameTick ! 0 \<noteq> annotations sameTick ! 1
   \<and> a_id (annotations sameTick ! 0) = a_id (annotations sameTick ! 1)
   \<and> \<not> distinct (map a_id (annotations sameTick))"
  by (simp add: run_def and_then_def sameTick_def oneCommitted_def handleAddAnnotation_fields
        initial_def rectangleDraft_def circleDraft_def blank_def)

section \<open>Layers\<close>

subsection \<open>The number of layer entries\<close>

lemma keys_add_to_group:
  "map fst (add_to_group acc a) =
     (if layer_key a \<in> fst ` set acc then map fst acc else map fst acc @ [layer_key a])"
  by (induction acc a rule: add_to_group.induct) auto

lemma keys_foldl_add_to_group:
  "distinct (map fst acc) \<Longrightarrow>
     distinct (map fst (foldl add_to_group acc anns))
   \<and> set (map fst (foldl add_to_group acc anns)) = fst ` set acc \<union> layer_key ` set anns"
proof (induction anns arbitrary: acc)
  case Nil
  then show ?case by simp
next
  case (Cons a anns)
  have d: "distinct (map fst (add_to_group acc a))"
    using Cons.prems by (simp add: keys_add_to_group)
  have "fst ` set (add_to_group acc a) = insert (layer_key a) (fst ` set acc)"
    using keys_add_to_group [of acc a, THEN arg_cong, of set] by auto
  with Cons.IH [OF d] show ?case by auto
qed

lemma length_layerList: "length (layerList anns) = card (layer_key ` set anns)"
proof -
  have "distinct (map fst (groupedAnnotations anns))"
    and "set (map fst (groupedAnnotations anns)) = layer_key ` set anns"
    using keys_foldl_add_to_group [of "[]" anns] by (simp_all add: groupedAnnotations_def)
  then have "card (layer_key ` set anns) = length (map fst (groupedAnnotations anns))"
    using distinct_card [of "map fst (groupedAnnotations anns)"] by simp
  then show ?thesis by (simp add: layerList_def)
qed

lemma index_layerList: "l_index ` set (layerList anns) = layer_key ` set anns"
proof -
  have "set (map fst (groupedAnnotations anns)) = layer_key ` set anns"
    using keys_foldl_add_to_group [of "[]" anns] by (simp add: groupedAnnotations_def)
  then show ?thesis by (force simp: layerList_def image_iff)
qed

lemma layer_update_same: "(a\<lparr>a_layer := v\<rparr> = a) = (v = a_layer a)"
  by (cases a) auto

subsection \<open>Every layer key of a session is 0\<close>

lemma flat_install:
  assumes "flat s" and "at_index (history s) j = Some x"
  shows "flat (s\<lparr>historyIndex := i, annotations := x\<rparr>)"
proof -
  have "x \<in> set (history s)" using assms(2) by (rule at_index_mem)
  then have "\<forall>a \<in> set x. layer_key a = 0"
    using assms(1) unfolding flat_def by blast
  then show ?thesis using assms(1) unfolding flat_def by simp
qed

lemma flat_cong:
  "annotations s' = annotations s \<Longrightarrow> history s' = history s \<Longrightarrow> flat s' = flat s"
  by (simp add: flat_def)

lemma flat_deleteLayer:
  assumes "flat s"
  shows "flat (deleteLayer k s)"
proof -
  have "\<forall>a \<in> set (annotations s). layer_key a = 0"
    using assms unfolding flat_def by blast
  then have "\<forall>a \<in> set (handleDeleteLayer k (annotations s)). layer_key a = 0"
    by (simp add: handleDeleteLayer_def)
  then show ?thesis using assms unfolding flat_def by (simp add: deleteLayer_fields)
qed

lemma flat_commit:
  assumes "flat s" and "flat render" and "layer_key x = 0"
    and "annotations s' = annotations s @ [x]"
    and "history s' = slice0 (history render) e @ [annotations render @ [x]]"
  shows "flat s'"
proof -
  have live: "\<forall>a \<in> set (annotations s). layer_key a = 0"
    using assms(1) unfolding flat_def by blast
  have rendered: "\<And>snap. snap \<in> insert (annotations render) (set (history render)) \<Longrightarrow>
      \<forall>a \<in> set snap. layer_key a = 0"
    using assms(2) unfolding flat_def by blast
  have "\<forall>a \<in> set (annotations render @ [x]). layer_key a = 0"
    using rendered [of "annotations render"] assms(3) by auto
  moreover have "\<And>snap. snap \<in> set (slice0 (history render) e) \<Longrightarrow>
      \<forall>a \<in> set snap. layer_key a = 0"
    using rendered set_slice0 [of "history render" e] by blast
  moreover have "\<forall>a \<in> set (annotations s'). layer_key a = 0"
    using live assms(3,4) by auto
  ultimately show ?thesis unfolding flat_def assms(5) by auto
qed

lemma flat_step:
  assumes "flat s" and "layers s = []"
    and "\<forall>r \<in> set renders. flat r \<and> layers r = []"
    and "step renders e s = Inr s'"
  shows "flat s'"
proof (cases e)
  case (AddAnnotation now d)
  have "flat (handleAddAnnotation now d s s)"
    by (rule flat_commit [OF assms(1) assms(1),
          where x = "d\<lparr>a_id := Some now, a_page := Some (currentPage s), a_layer := Some 0\<rparr>"
            and e = "historyIndex s + 1"])
       (simp_all add: handleAddAnnotation_fields assms(2) layer_key_def)
  then show ?thesis using assms(4) AddAnnotation by auto
next
  case (UseSignature now im)
  have "flat (handleAddSignature now (handleUseSignature im) s)"
    by (rule flat_commit [OF assms(1) assms(1),
          where x = "(handleUseSignature im)\<lparr>a_id := Some now, a_page := Some (currentPage s)\<rparr>"
            and e = "historyIndex s + 1"])
       (simp_all add: handleAddSignature_fields layer_key_def handleUseSignature_def blank_def)
  then show ?thesis using assms(4) UseSignature by auto
next
  case (ImageLoaded now result k)
  show ?thesis
  proof (cases "at_index renders (int k)")
    case None
    then show ?thesis using assms(1,4) ImageLoaded by simp
  next
    case (Some render)
    then have r: "flat render" "layers render = []"
      using assms(3) at_index_mem by fastforce+
    have "flat (handleAddAnnotation now (handleImageUpload result) render s)"
      by (rule flat_commit [OF assms(1) r(1),
            where x = "(handleImageUpload result)\<lparr>a_id := Some now,
                          a_page := Some (currentPage render), a_layer := Some 0\<rparr>"
              and e = "historyIndex render + 1"])
         (simp_all add: handleAddAnnotation_fields r(2) layer_key_def)
    then show ?thesis using assms(4) ImageLoaded Some by auto
  qed
next
  case Undo
  then show ?thesis using assms(1,4) flat_install [OF assms(1)]
    by (auto simp: handleUndo_def split: if_splits option.splits)
next
  case Redo
  then show ?thesis using assms(1,4) flat_install [OF assms(1)]
    by (auto simp: handleRedo_def split: if_splits option.splits)
next
  case (PageChange dir)
  then show ?thesis using assms(1,4) flat_cong [of "handlePageChange dir s" s]
    by (auto simp: handlePageChange_fields)
next
  case (FileUpload fo)
  have "flat (s\<lparr>currentPage := 1, annotations := [], layers := [],
                 history := [], historyIndex := - 1\<rparr>)"
    by (simp add: flat_def)
  then show ?thesis using FileUpload assms(1,4) handleFileUpload_cases [of fo s] by auto
next
  case (DeleteLayer k)
  then show ?thesis using assms(1,4) flat_deleteLayer [of s k] by auto
next
  case (ToggleVisibility k)
  then show ?thesis using assms(1,4) by (auto simp: handleToggleVisibility_def)
qed

lemma flat_run_after:
  "flat s \<Longrightarrow> steady s \<Longrightarrow> \<forall>r \<in> set earlier. flat r \<and> layers r = []
     \<Longrightarrow> run_after earlier es s = Inr s' \<Longrightarrow> flat s'"
proof (induction es arbitrary: s earlier)
  case Nil
  then show ?case by simp
next
  case (Cons e es)
  from step_steady [OF Cons.prems(2)] obtain s1
    where s1: "step (s # earlier) e s = Inr s1" "steady s1"
    by blast
  have all: "\<forall>r \<in> set (s # earlier). flat r \<and> layers r = []"
    using Cons.prems(1,2,3) by (simp add: steady_def)
  have "flat s1" using flat_step [OF Cons.prems(1) _ all s1(1)] Cons.prems(2)
    by (simp add: steady_def)
  moreover have "run_after (s # earlier) es s1 = Inr s'"
    using Cons.prems(4) s1(1) by (simp add: and_then_def)
  ultimately show ?case using Cons.IH [OF _ s1(2) all] by blast
qed

lemma flat_initial: "flat initial"
  by (simp add: flat_def initial_def)

lemma flat_run: "run es initial = Inr s \<Longrightarrow> flat s"
  using flat_run_after [OF flat_initial steady_initial, of "[]" es s] by (simp add: run_def)

lemma move_buttons_disabled:
  assumes "run es initial = Inr s" and "entry \<in> set (layerList (annotations s))"
  shows "moveUpDisabled (annotations s) (l_index entry) \<and> moveDownDisabled (l_index entry)"
proof -
  have "flat s" using flat_run [OF assms(1)] .
  then have keys: "layer_key ` set (annotations s) \<subseteq> {0}"
    by (auto simp: flat_def)
  then have "card (layer_key ` set (annotations s)) \<le> card {0::nat}"
    by (intro card_mono) simp_all
  then have "length (layerList (annotations s)) \<le> 1"
    by (simp add: length_layerList)
  moreover have "l_index entry \<in> layer_key ` set (annotations s)"
    using assms(2) index_layerList [of "annotations s"] by blast
  then have "l_index entry = 0" using keys by blast
  ultimately show ?thesis by (simp add: moveUpDisabled_def moveDownDisabled_def)
qed

lemma committed_layer_zero:
  assumes "run es initial = Inr s"
  shows "layers s = []
       \<and> a_layer (last (annotations (handleAddAnnotation now d s s))) = Some 0"
proof -
  from run_steady [OF steady_initial, of es] assms have "layers s = []"
    by (simp add: steady_def)
  then show ?thesis by (simp add: handleAddAnnotation_fields)
qed

subsection \<open>Moving and deleting a layer\<close>

lemma topmost_move_up_disabled:
  "moveUpDisabled anns (Max (layer_key ` set anns))"
proof (cases "anns = []")
  case True
  then show ?thesis by (simp add: moveUpDisabled_def length_layerList)
next
  case False
  have "card (layer_key ` set anns) \<le> Suc (Max (layer_key ` set anns))"
    by (rule card_le_Suc_Max) simp
  then show ?thesis by (simp add: moveUpDisabled_def length_layerList)
qed

lemma handleMoveLayer_formula:
  "handleMoveLayer k direction anns =
     map (\<lambda>a. if a_layer a = Some k
               then a\<lparr>a_layer := Some (if direction = ''up''
                                       then min (k + 1) (card (layer_key ` set anns))
                                       else k - 1)\<rparr>
               else a) anns"
proof -
  have "nat (max (int k - 1) 0) = k - 1" by simp
  then show ?thesis
    by (simp add: handleMoveLayer_def length_layerList cong: map_cong)
qed

lemma handleMoveLayer_unchanged:
  assumes "a \<in> set anns" and "a_layer a = Some k"
  shows "(handleMoveLayer k direction anns = anns)
       = ((if direction = ''up'' then min (k + 1) (card (layer_key ` set anns)) else k - 1) = k)"
proof -
  let ?m = "if direction = ''up'' then min (k + 1) (card (layer_key ` set anns)) else k - 1"
  let ?f = "\<lambda>a. if a_layer a = Some k then a\<lparr>a_layer := Some ?m\<rparr> else a"
  have "(map ?f anns = anns) = (\<forall>x \<in> set anns. ?f x = x)"
    using map_eq_conv [of ?f anns "\<lambda>x. x"] by simp
  also have "\<dots> = (?m = k)"
    using assms by (auto simp: layer_update_same)
  finally show ?thesis by (simp only: handleMoveLayer_formula)
qed

text \<open>
  C6 (amended). \<open>handleMoveLayer\<close> changes nothing but the layer of the annotations at the
  given key. Direction \<^verbatim>\<open>up\<close> sets it to the smaller of key + 1 and \<open>N\<close>, the number of
  distinct layer keys among the annotations (an annotation without a layer counts under
  key 0); any other direction sets it to key - 1, or to 0 for key 0. Hence, for a key that
  some annotation has, \<^verbatim>\<open>up\<close> changes nothing exactly when the key is \<open>N\<close>, and \<^verbatim>\<open>down\<close> changes
  nothing exactly when the key is 0. In the interface the Move Up button of the topmost
  layer is always disabled, and the Move Down button is disabled for layer 0 only.
\<close>

theorem moveLayer_clamps:
  "handleMoveLayer k direction anns =
     map (\<lambda>a. if a_layer a = Some k
               then a\<lparr>a_layer := Some (if direction = ''up''
                                       then min (k + 1) (card (layer_key ` set anns))
                                       else k - 1)\<rparr>
               else a) anns
   \<and> handleMoveLayer 0 ''down'' anns = anns
   \<and> (\<forall>a \<in> set anns. a_layer a = Some k \<longrightarrow>
        (handleMoveLayer k ''up'' anns = anns) = (k = card (layer_key ` set anns)))
   \<and> (\<forall>a \<in> set anns. a_layer a = Some k \<longrightarrow>
        (handleMoveLayer k ''down'' anns = anns) = (k = 0))
   \<and> moveUpDisabled anns (Max (layer_key ` set anns))
   \<and> moveDownDisabled k = (k = 0)"
proof -
  have "handleMoveLayer 0 ''down'' anns = map (\<lambda>a. a) anns"
    unfolding handleMoveLayer_def by (rule map_cong) (auto simp: layer_update_same)
  then have down0: "handleMoveLayer 0 ''down'' anns = anns" by simp
  have up: "\<forall>a \<in> set anns. a_layer a = Some k \<longrightarrow>
        (handleMoveLayer k ''up'' anns = anns) = (k = card (layer_key ` set anns))"
  proof (intro ballI impI)
    fix a assume "a \<in> set anns" "a_layer a = Some k"
    from handleMoveLayer_unchanged [OF this, of "''up''"]
    show "(handleMoveLayer k ''up'' anns = anns) = (k = card (layer_key ` set anns))"
      by auto
  qed
  have down: "\<forall>a \<in> set anns. a_layer a = Some k \<longrightarrow>
        (handleMoveLayer k ''down'' anns = anns) = (k = 0)"
  proof (intro ballI impI)
    fix a assume "a \<in> set anns" "a_layer a = Some k"
    from handleMoveLayer_unchanged [OF this, of "''down''"]
    show "(handleMoveLayer k ''down'' anns = anns) = (k = 0)"
      by auto
  qed
  from down0 up down show ?thesis
    using handleMoveLayer_formula [of k direction anns] topmost_move_up_disabled [of anns]
    by (simp add: moveDownDisabled_def)
qed

theorem moveLayer_clamps_witness:
  "handleMoveLayer 0 ''up'' [lowerCircle, upperRectangle]
     = [lowerCircle\<lparr>a_layer := Some 1\<rparr>, upperRectangle]
   \<and> handleMoveLayer 1 ''up'' [lowerCircle, upperRectangle]
     = [lowerCircle, upperRectangle\<lparr>a_layer := Some 2\<rparr>]
   \<and> handleMoveLayer 0 ''down'' [lowerCircle, upperRectangle] = [lowerCircle, upperRectangle]
   \<and> upperRectangle \<in> set [upperRectangle] \<and> a_layer upperRectangle = Some 1
   \<and> card (layer_key ` set [upperRectangle]) = 1
   \<and> handleMoveLayer 1 ''up'' [upperRectangle] = [upperRectangle]
   \<and> moveUpDisabled [lowerCircle, upperRectangle] 1"
proof -
  have keys: "layer_key ` set [lowerCircle, upperRectangle] = {0, 1}"
    by (auto simp: layer_key_def lowerCircle_def upperRectangle_def)
  then have two: "card (layer_key ` set [lowerCircle, upperRectangle]) = 2"
    and top: "Max (layer_key ` set [lowerCircle, upperRectangle]) = 1" by simp_all
  have lay: "a_layer upperRectangle = Some 1" by (simp add: upperRectangle_def)
  have one: "card (layer_key ` set [upperRectangle]) = 1" by simp
  have "handleMoveLayer 1 ''up'' [upperRectangle] = [upperRectangle]"
    using moveLayer_clamps [of 1 "''up''" "[upperRectangle]"] lay one by simp
  moreover have "handleMoveLayer 0 ''up'' [lowerCircle, upperRectangle]
     = [lowerCircle\<lparr>a_layer := Some 1\<rparr>, upperRectangle]"
    and "handleMoveLayer 1 ''up'' [lowerCircle, upperRectangle]
     = [lowerCircle, upperRectangle\<lparr>a_layer := Some 2\<rparr>]"
    and "handleMoveLayer 0 ''down'' [lowerCircle, upperRectangle] = [lowerCircle, upperRectangle]"
    and "moveUpDisabled [lowerCircle, upperRectangle] 1"
    using moveLayer_clamps [of 0 "''up''" "[lowerCircle, upperRectangle]"]
      moveLayer_clamps [of 1 "''up''" "[lowerCircle, upperRectangle]"] two top
    by (simp_all add: lowerCircle_def upperRectangle_def)
  ultimately show ?thesis using lay one by simp
qed

text \<open>
  The bound is the number of layer keys, not the largest key, and 0 from below: the only
  layer, 0, moved up goes to layer 1, and a lowest layer 2 moved down goes to layer 1.
\<close>

theorem moveLayer_counterexample:
  "handleMoveLayer 0 ''up'' [committedRectangle] = [committedRectangle\<lparr>a_layer := Some 1\<rparr>]
   \<and> a_layer committedRectangle = Some 0
   \<and> handleMoveLayer 2 ''down'' [committedRectangle\<lparr>a_layer := Some 2\<rparr>]
       = [committedRectangle\<lparr>a_layer := Some 1\<rparr>]"
  by (simp add: handleMoveLayer_def length_layerList committedRectangle_def layer_key_def)

text \<open>
  C7. \<open>handleDeleteLayer\<close> hands the filtered annotations to \<^verbatim>\<open>setAnnotations\<close> and does not
  reach \<open>addToHistory\<close>. After two commits, both on layer 0, deleting layer 0 empties the
  annotation set and leaves the snapshot sequence and the cursor as they were; the undo
  that follows installs the snapshot of the first commit, not the set before the deletion.
\<close>

theorem deleteLayer_skips_history:
  "annotations twoCommitted
     = [committedRectangle, circleDraft\<lparr>a_id := Some 2000, a_page := Some 1, a_layer := Some 0\<rparr>]
   \<and> annotations (deleteLayer 0 twoCommitted) = []
   \<and> history (deleteLayer 0 twoCommitted) = history twoCommitted
   \<and> historyIndex (deleteLayer 0 twoCommitted) = historyIndex twoCommitted
   \<and> historyIndex twoCommitted = 1
   \<and> and_then (handleUndo (deleteLayer 0 twoCommitted)) (\<lambda>s. Inr (annotations s))
       = Inr [committedRectangle]"
  by (simp add: deleteLayer_fields twoCommitted_fields handleDeleteLayer_def and_then_def
        handleUndo_def at_index_def committedRectangle_def committedCircle_def)

text \<open>
  C10. \<open>handleAddSignature\<close> assigns no layer: the signature committed on the empty editor
  carries no layer field, where \<open>handleAddAnnotation\<close> assigns the length of \<^verbatim>\<open>layers\<close>, 0.
\<close>

theorem signature_without_layer:
  "map a_layer (annotations
       (handleAddSignature 1000 (handleUseSignature (Some ''data:image/png;base64,iVBOR'')) initial))
     = [None]
   \<and> length (layers initial) = 0
   \<and> map a_layer (annotations (handleAddAnnotation 1000 rectangleDraft initial initial))
       = [Some 0]"
  by (simp add: handleAddSignature_fields handleAddAnnotation_fields handleUseSignature_def
        initial_def blank_def)

section \<open>Projection\<close>

lemma foldl_and_next:
  "foldl and_next p ps =
     \<lparr>issued = issued p @ concat (map issued ps),
      registered = registered p @ concat (map registered ps)\<rparr>"
  by (induction ps arbitrary: p) (simp_all add: and_next_def)

lemma drawAnnotations_parts:
  "issued (drawAnnotations page z anns)
     = concat (map (\<lambda>a. issued (drawAnnotation z a)) (filter (\<lambda>a. a_page a = Some page) anns))"
  "registered (drawAnnotations page z anns)
     = concat (map (\<lambda>a. registered (drawAnnotation z a))
         (filter (\<lambda>a. a_page a = Some page) anns))"
  by (simp_all add: drawAnnotations_def foldl_and_next nothing_def comp_def)


lemma issued_drawAnnotation:
  "map painted (issued (drawAnnotation z a))
     = (if a_type a \<in> set [''text'', ''rectangle'', ''circle'', ''highlight'', ''arrow'']
        then [a] else [])"
  by (simp add: drawAnnotation_def nothing_def)

lemma registered_drawAnnotation:
  "map painted (registered (drawAnnotation z a))
     = (if a_type a = ''signature'' \<and> truthy (a_imageData a) then [a] else [])"
  by (simp add: drawAnnotation_def nothing_def)

lemma painted_issued:
  "map painted (issued (drawAnnotations page z anns))
     = filter (\<lambda>a. a_page a = Some page
          \<and> a_type a \<in> set [''text'', ''rectangle'', ''circle'', ''highlight'', ''arrow'']) anns"
  unfolding drawAnnotations_parts
  by (induction anns) (simp_all add: issued_drawAnnotation del: set_simps)

lemma painted_registered:
  "map painted (registered (drawAnnotations page z anns))
     = filter (\<lambda>a. a_page a = Some page \<and> a_type a = ''signature'' \<and> truthy (a_imageData a))
         anns"
  unfolding drawAnnotations_parts
  by (induction anns) (simp_all add: registered_drawAnnotation)



text \<open>A signature stored before a rectangle is painted after it, when its image decodes.\<close>

lemma signature_painted_last:
  "canvas (drawAnnotations 1 1 [committedSignature, committedRectangle]) [0]
     = [StrokeRect committedRectangle 1, DrawImage committedSignature 1]"
  by (simp add: canvas_def fired_def drawAnnotations_def and_next_def nothing_def
        drawAnnotation_def committedSignature_def committedRectangle_def
        handleUseSignature_def rectangleDraft_def blank_def truthy_def)




text \<open>
  C5 (amended). The projection filters to the current page and to nothing else. The
  annotations that a pass paints are, in stored order, those of the current page whose
  type is text, rectangle, circle, highlight or arrow; the images for which it registers
  a callback are, in stored order, those of the signatures of the current page that carry
  image data. \<open>handleToggleVisibility\<close> changes no state, and every entry of \<open>layerList\<close>
  is visible.
\<close>

theorem projection_page_only:
  "map painted (issued (drawAnnotations page zoomLevel anns))
     = filter (\<lambda>a. a_page a = Some page
          \<and> a_type a \<in> set [''text'', ''rectangle'', ''circle'', ''highlight'', ''arrow'']) anns
   \<and> map painted (registered (drawAnnotations page zoomLevel anns))
     = filter (\<lambda>a. a_page a = Some page \<and> a_type a = ''signature'' \<and> truthy (a_imageData a))
         anns
   \<and> handleToggleVisibility layerIndex s = s
   \<and> list_all l_visible (layerList anns)"
proof -
  have "handleToggleVisibility layerIndex s = s"
    by (simp add: handleToggleVisibility_def)
  moreover have "list_all l_visible (layerList anns)"
    by (simp add: layerList_def list_all_iff)
  ultimately show ?thesis
    using painted_issued [of page zoomLevel anns] painted_registered [of page zoomLevel anns]
    by simp
qed

theorem projection_page_only_witness:
  "map painted (issued (drawAnnotations 1 1
       [committedSignature, upperRectangle, lowerCircle\<lparr>a_page := Some 2\<rparr>]))
     = [upperRectangle]
   \<and> map painted (registered (drawAnnotations 1 1
       [committedSignature, upperRectangle, lowerCircle\<lparr>a_page := Some 2\<rparr>]))
     = [committedSignature]
   \<and> handleToggleVisibility 1 oneCommitted = oneCommitted
   \<and> map l_visible (layerList [upperRectangle, lowerCircle]) = [True, True]"
proof -
  let ?anns = "[committedSignature, upperRectangle, lowerCircle\<lparr>a_page := Some 2\<rparr>]"
  have "map l_visible (layerList [upperRectangle, lowerCircle]) = [True, True]"
    by (simp add: layerList_def groupedAnnotations_def upperRectangle_def lowerCircle_def
          layer_key_def)
  moreover have "filter (\<lambda>a. a_page a = Some 1
          \<and> a_type a \<in> set [''text'', ''rectangle'', ''circle'', ''highlight'', ''arrow''])
        ?anns = [upperRectangle]"
    by (simp add: upperRectangle_def lowerCircle_def committedSignature_def
          handleUseSignature_def rectangleDraft_def)
  moreover have "filter (\<lambda>a. a_page a = Some 1 \<and> a_type a = ''signature''
          \<and> truthy (a_imageData a)) ?anns = [committedSignature]"
    by (simp add: upperRectangle_def lowerCircle_def committedSignature_def
          handleUseSignature_def rectangleDraft_def truthy_def)
  ultimately show ?thesis
    using projection_page_only [of 1 1 ?anns 1 oneCommitted]
    by simp
qed

text \<open>
  After the visibility of layer 0 is toggled, the rectangle on layer 0 is still painted.
\<close>

theorem hidden_layer_still_drawn:
  "annotations (handleToggleVisibility 0 oneCommitted) = [committedRectangle]
   \<and> a_layer committedRectangle = Some 0
   \<and> issued (drawAnnotations (currentPage (handleToggleVisibility 0 oneCommitted)) 1
        (annotations (handleToggleVisibility 0 oneCommitted)))
       = [StrokeRect committedRectangle 1]"
  by (simp add: handleToggleVisibility_def oneCommitted_fields drawAnnotations_def
        and_next_def nothing_def drawAnnotation_def committedRectangle_def rectangleDraft_def)

end
